theory Spec2Isabelle
  imports Complex_Main
begin

section \<open>Data model\<close>

text \<open>
  The service of \<^verbatim>\<open>src/reports/reports.service.ts\<close> reads two tables through the
  object-relational mapper and is handed the user by its caller.  A timestamp is the time
  value of a JavaScript \<^verbatim>\<open>Date\<close>, an integer number of milliseconds since the epoch (the
  limits of the range of a \<^verbatim>\<open>Date\<close> are not modelled).  A nullable column is an \<open>option\<close>,
  \<open>None\<close> being SQL \<^verbatim>\<open>NULL\<close>.  The column \<^verbatim>\<open>id\<close> is written \<open>user_id\<close> and \<open>list_id\<close>,
  \<open>id\<close> being the identity function of HOL.
\<close>

type_synonym timestamp = int

text \<open>
  Modelled from the spec: the class \<^verbatim>\<open>User\<close> of \<^verbatim>\<open>src/auth/users.model\<close>, which the service
  imports and which is not among the sources.  The service reads \<^verbatim>\<open>id\<close> and \<^verbatim>\<open>createdAt\<close>.
\<close>

record User =
  user_id :: int
  createdAt :: timestamp

text \<open>
  Modelled from the spec: the class \<^verbatim>\<open>TodoList\<close> of \<^verbatim>\<open>src/todolist/todolist.model\<close>, not
  among the sources.  The service filters on \<^verbatim>\<open>userId\<close> and reads \<^verbatim>\<open>id\<close>.
\<close>

record TodoList =
  list_id :: int
  userId :: int

text \<open>
  Modelled from the spec: the class \<^verbatim>\<open>Task\<close> of \<^verbatim>\<open>src/tasks/tasks.model\<close>, not among the
  sources: a foreign key, a boolean status, a nullable completion instant and a deadline.
\<close>

record Task =
  todoListId :: int
  completionStatus :: bool
  completionDateTime :: "timestamp option"
  dueDateTime :: timestamp

text \<open>
  The data store as one call of the service finds it: the rows of the two tables, in the
  order in which the database returns them to a query without an ordering clause.  Every
  query of a call reads the same state; a query that fails rejects the call, which the
  service does not handle, and is not part of the model.
\<close>

record Store =
  todoLists :: "TodoList list"
  tasks :: "Task list"

section \<open>The data-access collaborators\<close>

text \<open>
  A \<^verbatim>\<open>where\<close> option of the mapper is a predicate on rows.  \<^verbatim>\<open>findOne\<close> resolves to the
  first matching row or to \<^verbatim>\<open>null\<close>, \<^verbatim>\<open>findAll\<close> to the matching rows, \<^verbatim>\<open>count\<close> to their
  number and \<^verbatim>\<open>findAndCountAll\<close> to both.
\<close>

record 'r RowsAndCount =
  rows :: "'r list"
  count :: int

definition todoListModel_findOne :: "Store \<Rightarrow> (TodoList \<Rightarrow> bool) \<Rightarrow> TodoList option" where
  "todoListModel_findOne db cond = find cond (todoLists db)"

definition taskModel_findAll :: "Store \<Rightarrow> (Task \<Rightarrow> bool) \<Rightarrow> Task list" where
  "taskModel_findAll db cond = filter cond (tasks db)"

definition taskModel_count :: "Store \<Rightarrow> (Task \<Rightarrow> bool) \<Rightarrow> int" where
  "taskModel_count db cond = int (length (filter cond (tasks db)))"

definition taskModel_findAndCountAll :: "Store \<Rightarrow> (Task \<Rightarrow> bool) \<Rightarrow> Task RowsAndCount" where
  "taskModel_findAndCountAll db cond =
     \<lparr>rows = taskModel_findAll db cond, count = taskModel_count db cond\<rparr>"

text \<open>The three filters the service passes, in the order of the source.\<close>

definition where_list :: "int \<Rightarrow> Task \<Rightarrow> bool" where
  \<comment> \<open>\<^verbatim>\<open>{ todoListId: todolist.id }\<close>\<close>
  "where_list lid t = (todoListId t = lid)"

definition where_completed :: "int \<Rightarrow> Task \<Rightarrow> bool" where
  \<comment> \<open>\<^verbatim>\<open>{ todoListId: todolist.id, completionStatus: true }\<close>\<close>
  "where_completed lid t = (todoListId t = lid \<and> completionStatus t)"

definition where_late :: "int \<Rightarrow> Task \<Rightarrow> bool" where
  \<comment> \<open>\<^verbatim>\<open>{ todoListId, completionStatus: true, completionDateTime: { [Op.gt]: col('dueDateTime') } }\<close>;
      a comparison with \<^verbatim>\<open>NULL\<close> is not true in SQL, so the row is not selected.\<close>
  "where_late lid t =
     (todoListId t = lid \<and> completionStatus t \<and>
      (case completionDateTime t of None \<Rightarrow> False | Some c \<Rightarrow> dueDateTime t < c))"

section \<open>ReportsService\<close>

definition getTodoListByUser :: "Store \<Rightarrow> int \<Rightarrow> TodoList option" where
  "getTodoListByUser db uid = todoListModel_findOne db (\<lambda>l. userId l = uid)"

subsection \<open>getTaskCount\<close>

text \<open>
  Modelled from the spec: the interface \<^verbatim>\<open>ITasksCount\<close> of \<^verbatim>\<open>src/reports/reports.interfaces\<close>,
  not among the sources; its three fields are those of the object the function returns.
\<close>

record ITasksCount =
  totalTasks :: int
  completedTasks :: int
  remainingTasks :: int

definition getTaskCount :: "Store \<Rightarrow> User \<Rightarrow> ITasksCount" where
  "getTaskCount db user =
     (case getTodoListByUser db (user_id user) of
        None \<Rightarrow> \<lparr>totalTasks = 0, completedTasks = 0, remainingTasks = 0\<rparr>
      | Some todolist \<Rightarrow>
          let totalTasks = taskModel_findAndCountAll db (where_list (list_id todolist));
              completedTasks = int (length (filter (\<lambda>task. completionStatus task) (rows totalTasks)));
              remainingTasks = count totalTasks - completedTasks
          in \<lparr>totalTasks = count totalTasks,
               completedTasks = completedTasks,
               remainingTasks = remainingTasks\<rparr>)"

subsection \<open>getTasksNotCompletedOnTime\<close>

definition getTasksNotCompletedOnTime :: "Store \<Rightarrow> User \<Rightarrow> int" where
  "getTasksNotCompletedOnTime db user =
     (case getTodoListByUser db (user_id user) of
        None \<Rightarrow> 0
      | Some todolist \<Rightarrow> taskModel_count db (where_late (list_id todolist)))"

subsection \<open>The host, and what the service uses of the date library\<close>

text \<open>
  \<^verbatim>\<open>moment()\<close> reads the clock of the host, and the local fields of a \<^verbatim>\<open>Date\<close> are those of
  its instant moved by the adjustment of the host's time zone at that instant, in
  milliseconds east of UTC (an offset may have seconds).  Both are parameters of the
  operations that use the date library.
\<close>

record Host =
  now :: timestamp
  localTZA :: "timestamp \<Rightarrow> int"

text \<open>
  \<^verbatim>\<open>utcOffset()\<close> of a moment in local mode is \<^verbatim>\<open>-Math.round(date.getTimezoneOffset())\<close>:
  whole minutes east of UTC, where \<^verbatim>\<open>getTimezoneOffset()\<close> is the difference from local time
  to UTC in minutes, possibly fractional, and \<^verbatim>\<open>Math.round\<close> rounds a half upwards.
\<close>

definition getTimezoneOffset :: "Host \<Rightarrow> timestamp \<Rightarrow> real" where
  "getTimezoneOffset host t = real_of_int (t - (t + localTZA host t)) / 60000"

definition Math_round :: "real \<Rightarrow> int" where
  "Math_round x = \<lfloor>x + 1 / 2\<rfloor>"

definition utcOffset :: "Host \<Rightarrow> timestamp \<Rightarrow> int" where
  "utcOffset host t = - Math_round (getTimezoneOffset host t)"

text \<open>
  \<^verbatim>\<open>this.diff(that, 'days')\<close>: the difference of the two instants, corrected by the
  difference of their offsets, in days, truncated towards zero (\<^verbatim>\<open>absFloor\<close>).
\<close>

definition absFloor :: "real \<Rightarrow> int" where
  "absFloor number = (if number < 0 then \<lceil>number\<rceil> else \<lfloor>number\<rfloor>)"

definition diff_days :: "Host \<Rightarrow> timestamp \<Rightarrow> timestamp \<Rightarrow> int" where
  "diff_days host this that =
     (let zoneDelta = (utcOffset host that - utcOffset host this) * 60000
      in absFloor (real_of_int (this - that - zoneDelta) / 86400000))"

text \<open>
  The calendar date of a day number (days since 1970-01-01) in the proleptic Gregorian
  calendar, which is what \<^verbatim>\<open>year()\<close>, \<^verbatim>\<open>month() + 1\<close> and \<^verbatim>\<open>date()\<close> of a moment in local
  mode read from the local fields of its \<^verbatim>\<open>Date\<close>.  Days are counted from 0000-03-01, in eras of 400
  years (146097 days), centuries (36524 days, the last of an era one more), cycles of four
  years (1461 days) and years that begin on the first of March, so that a leap day is the
  last day of its year, cycle and era.
\<close>

definition year_and_day :: "int \<Rightarrow> int \<times> int" where
  \<comment> \<open>the year that begins on the first of March, and the day of that year (from 0)\<close>
  "year_and_day day =
     (let z = day + 719468;
          era = z div 146097;
          doe = z mod 146097;
          century = min 3 (doe div 36524);
          doc = doe - century * 36524;
          cycle = doc div 1461;
          doq = doc mod 1461;
          yoq = min 3 (doq div 365);
          doy = doq - yoq * 365
      in (era * 400 + century * 100 + cycle * 4 + yoq, doy))"

definition civil_from_days :: "int \<Rightarrow> int \<times> int \<times> int" where
  "civil_from_days day =
     (case year_and_day day of
        (y, doy) \<Rightarrow>
          let mp = (5 * doy + 2) div 153;
              d = doy - (153 * mp + 2) div 5 + 1;
              m = (if mp < 10 then mp + 3 else mp - 9)
          in (y + (if m \<le> 2 then 1 else 0), m, d))"

definition localDay :: "Host \<Rightarrow> timestamp \<Rightarrow> int" where
  "localDay host t = (t + localTZA host t) div 86400000"

definition moment_year :: "Host \<Rightarrow> timestamp \<Rightarrow> int" where
  "moment_year host t = fst (civil_from_days (localDay host t))"

definition moment_month :: "Host \<Rightarrow> timestamp \<Rightarrow> int" where
  \<comment> \<open>\<^verbatim>\<open>month() + 1\<close>, the number the token \<^verbatim>\<open>MM\<close> prints\<close>
  "moment_month host t = fst (snd (civil_from_days (localDay host t)))"

definition moment_date :: "Host \<Rightarrow> timestamp \<Rightarrow> int" where
  "moment_date host t = snd (snd (civil_from_days (localDay host t)))"

text \<open>
  \<^verbatim>\<open>zeroFill(number, targetLength)\<close> pads the decimal digits of \<open>\<bar>number\<bar>\<close> with zeros up to
  the target length and never shortens them; a negative number keeps its sign.
\<close>

definition digit :: "int \<Rightarrow> char" where
  "digit n = ''0123456789'' ! nat n"

function decimal :: "int \<Rightarrow> string" where
  "decimal n = (if n < 10 then [digit n] else decimal (n div 10) @ [digit (n mod 10)])"
  by pat_completeness auto
termination
  by (relation "measure nat") auto

definition zeroFill :: "int \<Rightarrow> nat \<Rightarrow> string" where
  "zeroFill number targetLength =
     (let absNumber = decimal \<bar>number\<bar>;
          zerosToFill = int targetLength - int (length absNumber)
      in (if 0 \<le> number then [] else ''-'')
         @ replicate (nat (max 0 zerosToFill)) (CHR ''0'') @ absNumber)"

text \<open>
  \<^verbatim>\<open>moment(input).format('YYYY-MM-DD')\<close>.  \<^verbatim>\<open>moment(null)\<close> is an invalid moment, and an
  invalid moment formats as the text \<^verbatim>\<open>Invalid date\<close>.
\<close>

definition format_YYYY_MM_DD :: "Host \<Rightarrow> timestamp option \<Rightarrow> string" where
  "format_YYYY_MM_DD host input =
     (case input of
        None \<Rightarrow> ''Invalid date''
      | Some t \<Rightarrow>
          zeroFill (moment_year host t) 4 @ ''-'' @ zeroFill (moment_month host t) 2
            @ ''-'' @ zeroFill (moment_date host t) 2)"

subsection \<open>getAvgTasksPerDay\<close>

text \<open>
  The quotient of two JavaScript numbers is a number also when the divisor is zero:
  an infinity, or \<^verbatim>\<open>NaN\<close> for \<^verbatim>\<open>0 / 0\<close>.  The operands here are integers; the quotient of
  two integers is taken exactly.
\<close>

datatype number = Finite real | PosInfinity | NegInfinity | NaN

definition number_divide :: "int \<Rightarrow> int \<Rightarrow> number" where
  "number_divide a b =
     (if b = 0 then (if a = 0 then NaN else if 0 < a then PosInfinity else NegInfinity)
      else Finite (real_of_int a / real_of_int b))"

fun Math_floor :: "number \<Rightarrow> number" where
  "Math_floor (Finite r) = Finite (of_int \<lfloor>r\<rfloor>)"
| "Math_floor PosInfinity = PosInfinity"
| "Math_floor NegInfinity = NegInfinity"
| "Math_floor NaN = NaN"

definition getAvgTasksPerDay :: "Host \<Rightarrow> Store \<Rightarrow> User \<Rightarrow> number" where
  "getAvgTasksPerDay host db user =
     (case getTodoListByUser db (user_id user) of
        None \<Rightarrow> Finite 0
      | Some todolist \<Rightarrow>
          let daysSinceAccountCreation = diff_days host (now host) (createdAt user)
          in if daysSinceAccountCreation = 0 then Finite 0
             else
               let completedTasks = taskModel_count db (where_completed (list_id todolist))
               in Math_floor (number_divide completedTasks daysSinceAccountCreation))"

subsection \<open>getDateWithMostCompletedTasks\<close>

text \<open>
  The accumulator of the \<^verbatim>\<open>reduce\<close> is a plain object used as a dictionary from formatted
  dates to counts: the association list of its own properties in the order of their
  creation.  Reading a key that is absent gives \<^verbatim>\<open>undefined\<close>, which \<^verbatim>\<open>|| 0\<close> turns into 0
  (no formatted date is the name of a property the object inherits: each holds a hyphen
  or a space); assigning to a key that is present keeps its place.
\<close>

type_synonym Grouped = "(string \<times> int) list"

fun increment :: "Grouped \<Rightarrow> string \<Rightarrow> Grouped" where
  \<comment> \<open>\<^verbatim>\<open>grouped[date] = (grouped[date] || 0) + 1\<close>\<close>
  "increment [] date = [(date, 0 + 1)]"
| "increment ((k, c) # grouped) date =
     (if k = date then (k, (if c = 0 then 0 else c) + 1) # grouped
      else (k, c) # increment grouped date)"

definition tasksByDate :: "Host \<Rightarrow> Task list \<Rightarrow> Grouped" where
  "tasksByDate host ts =
     foldl (\<lambda>grouped task. increment grouped (format_YYYY_MM_DD host (completionDateTime task)))
       [] ts"

text \<open>
  \<^verbatim>\<open>Object.entries\<close> lists the keys that are array indices first, in ascending order of
  their value, and then the other keys in the order of their creation.  An array index is
  the decimal text, without leading zeros, of an integer below \<open>2\<^sup>3\<^sup>2 - 1\<close>.
\<close>

definition isDigit :: "char \<Rightarrow> bool" where
  "isDigit c = (c \<in> set ''0123456789'')"

definition index_value :: "string \<Rightarrow> int" where
  "index_value s = foldl (\<lambda>n c. 10 * n + (of_char c - 48)) 0 s"

definition isArrayIndex :: "string \<Rightarrow> bool" where
  "isArrayIndex s =
     (s \<noteq> [] \<and> list_all isDigit s \<and> (s = ''0'' \<or> hd s \<noteq> CHR ''0'')
      \<and> index_value s < 4294967295)"

definition Object_entries :: "Grouped \<Rightarrow> (string \<times> int) list" where
  "Object_entries grouped =
     sort_key (\<lambda>e. index_value (fst e)) (filter (\<lambda>e. isArrayIndex (fst e)) grouped)
     @ filter (\<lambda>e. \<not> isArrayIndex (fst e)) grouped"

fun findMax :: "string option \<times> int \<Rightarrow> (string \<times> int) list \<Rightarrow> string option \<times> int" where
  \<comment> \<open>the \<^verbatim>\<open>for ... of\<close> loop over the entries, on the pair \<^verbatim>\<open>(maxDate, maxCount)\<close>\<close>
  "findMax (maxDate, maxCount) [] = (maxDate, maxCount)"
| "findMax (maxDate, maxCount) ((date, count') # entries) =
     (if count' > maxCount then findMax (Some date, count') entries
      else findMax (maxDate, maxCount) entries)"

definition getDateWithMostCompletedTasks :: "Host \<Rightarrow> Store \<Rightarrow> User \<Rightarrow> string option" where
  "getDateWithMostCompletedTasks host db user =
     (case getTodoListByUser db (user_id user) of
        None \<Rightarrow> None
      | Some todolist \<Rightarrow>
          let completed = taskModel_findAll db (where_completed (list_id todolist))
          in fst (findMax (None, 0) (Object_entries (tasksByDate host completed))))"

section \<open>Notions of the specification\<close>

text \<open>
  The completion date of a task is the date portion of its completion instant in the
  time zone of the host; a task without a completion instant has none.  The number of
  completions on a date counts the tasks of that completion date.
\<close>

definition completionDate :: "Host \<Rightarrow> Task \<Rightarrow> string option" where
  "completionDate host task =
     (case completionDateTime task of
        None \<Rightarrow> None
      | Some c \<Rightarrow> Some (format_YYYY_MM_DD host (Some c)))"

definition completions_on :: "Host \<Rightarrow> Task list \<Rightarrow> string \<Rightarrow> int" where
  "completions_on host ts date =
     int (length (filter (\<lambda>task. completionDate host task = Some date) ts))"

text \<open>The distinct elements of a list in the order of their first occurrence.\<close>

definition first_seen :: "'a list \<Rightarrow> 'a list" where
  "first_seen xs = rev (remdups (rev xs))"

text \<open>
  The key under which the \<^verbatim>\<open>reduce\<close> puts a row, dated or not, and the number of rows of
  a key.
\<close>

definition groupKey :: "Host \<Rightarrow> Task \<Rightarrow> string" where
  "groupKey host task = format_YYYY_MM_DD host (completionDateTime task)"

definition rows_under :: "Host \<Rightarrow> Task list \<Rightarrow> string \<Rightarrow> int" where
  "rows_under host ts key =
     int (length (filter (\<lambda>task. groupKey host task = key) ts))"

text \<open>A date-only value \<^verbatim>\<open>YYYY-MM-DD\<close>: four digits, a hyphen, two digits, a hyphen, two digits.\<close>

definition is_YYYY_MM_DD :: "string \<Rightarrow> bool" where
  "is_YYYY_MM_DD s =
     (length s = 10 \<and> list_all isDigit (take 4 s) \<and> s ! 4 = CHR ''-''
      \<and> list_all isDigit (take 2 (drop 5 s)) \<and> s ! 7 = CHR ''-''
      \<and> list_all isDigit (drop 8 s))"

section \<open>Example data\<close>

text \<open>
  A host on UTC whose clock reads 2024-01-04T00:00:00Z, users of identity 1 created at a
  given instant, and a store in which the list of user 1 has identity 10.
\<close>

definition host_utc :: Host where
  "host_utc = \<lparr>now = 1704326400000, localTZA = (\<lambda>t. 0)\<rparr>"

definition host_seconds :: Host where
  \<comment> \<open>a zone one second west of UTC\<close>
  "host_seconds = \<lparr>now = 0, localTZA = (\<lambda>t. - 1000)\<rparr>"

definition user_created :: "timestamp \<Rightarrow> User" where
  "user_created c = \<lparr>user_id = 1, createdAt = c\<rparr>"

definition stranger :: User where
  "stranger = \<lparr>user_id = 3, createdAt = 1704110400000\<rparr>"

definition the_lists :: "TodoList list" where
  "the_lists = [\<lparr>list_id = 20, userId = 2\<rparr>, \<lparr>list_id = 10, userId = 1\<rparr>]"

definition on_time :: Task where
  \<comment> \<open>completed 2024-01-01T09:00Z, due 2024-01-01T12:00Z\<close>
  "on_time = \<lparr>todoListId = 10, completionStatus = True,
              completionDateTime = Some 1704099600000, dueDateTime = 1704110400000\<rparr>"

definition other_list :: Task where
  \<comment> \<open>a late completion in the list of another user\<close>
  "other_list = \<lparr>todoListId = 20, completionStatus = True,
                 completionDateTime = Some 1704200000000, dueDateTime = 1704110400000\<rparr>"

definition at_deadline :: Task where
  \<comment> \<open>completed 2024-01-02T08:00Z, due at the same instant\<close>
  "at_deadline = \<lparr>todoListId = 10, completionStatus = True,
                  completionDateTime = Some 1704182400000, dueDateTime = 1704182400000\<rparr>"

definition late_second_day :: Task where
  \<comment> \<open>completed 2024-01-02T10:00Z, due 2024-01-02T09:00Z\<close>
  "late_second_day = \<lparr>todoListId = 10, completionStatus = True,
                      completionDateTime = Some 1704189600000, dueDateTime = 1704186000000\<rparr>"

definition overdue_pending :: Task where
  \<comment> \<open>not completed, due 2023-12-01T00:00Z\<close>
  "overdue_pending = \<lparr>todoListId = 10, completionStatus = False,
                      completionDateTime = None, dueDateTime = 1701388800000\<rparr>"

definition late_first_day :: Task where
  \<comment> \<open>completed 2024-01-01T23:30Z, due 2024-01-01T12:00Z\<close>
  "late_first_day = \<lparr>todoListId = 10, completionStatus = True,
                     completionDateTime = Some 1704151800000, dueDateTime = 1704110400000\<rparr>"

definition store_a :: Store where
  "store_a = \<lparr>todoLists = the_lists,
              tasks = [on_time, other_list, at_deadline, late_second_day, overdue_pending,
                       late_first_day]\<rparr>"

definition store_seven :: Store where
  "store_seven = \<lparr>todoLists = the_lists,
                  tasks = [on_time, on_time, at_deadline, overdue_pending, late_second_day,
                           late_first_day, on_time, at_deadline]\<rparr>"

definition store_pending :: Store where
  "store_pending = \<lparr>todoLists = the_lists, tasks = [overdue_pending, other_list]\<rparr>"

definition completed_without_date :: Task where
  "completed_without_date = \<lparr>todoListId = 10, completionStatus = True,
                             completionDateTime = None, dueDateTime = 1704110400000\<rparr>"

definition completed_year_10000 :: Task where
  \<comment> \<open>completed 10000-01-01T00:00:00Z\<close>
  "completed_year_10000 = \<lparr>todoListId = 10, completionStatus = True,
                           completionDateTime = Some 253402300800000,
                           dueDateTime = 1704110400000\<rparr>"

definition store_without_date :: Store where
  "store_without_date = \<lparr>todoLists = the_lists, tasks = [completed_without_date]\<rparr>"

definition store_year_10000 :: Store where
  "store_year_10000 = \<lparr>todoLists = the_lists, tasks = [completed_year_10000]\<rparr>"

declare decimal.simps [simp del]

section \<open>Looking up the list of a user\<close>

lemma getTodoListByUser_absent:
  "\<forall>l \<in> set (todoLists db). userId l \<noteq> uid \<Longrightarrow> getTodoListByUser db uid = None"
  by (simp add: getTodoListByUser_def todoListModel_findOne_def find_None_iff)

lemma getTodoListByUser_Some:
  "getTodoListByUser db uid = Some l \<Longrightarrow> l \<in> set (todoLists db) \<and> userId l = uid"
  by (auto simp add: getTodoListByUser_def todoListModel_findOne_def find_Some_iff)

lemma getTodoListByUser_tasks_update [simp]:
  "getTodoListByUser (db\<lparr>tasks := ts\<rparr>) uid = getTodoListByUser db uid"
  by (simp add: getTodoListByUser_def todoListModel_findOne_def)

lemma list_of_user_1:
  "getTodoListByUser \<lparr>todoLists = the_lists, tasks = ts\<rparr> (user_id (user_created c))
     = Some \<lparr>list_id = 10, userId = 1\<rparr>"
  by (simp add: getTodoListByUser_def todoListModel_findOne_def the_lists_def user_created_def)

lemma where_list_fun: "where_list lid = (\<lambda>t. todoListId t = lid)"
  by (rule ext) (simp add: where_list_def)

lemma where_completed_fun:
  "where_completed lid = (\<lambda>t. todoListId t = lid \<and> completionStatus t)"
  by (rule ext) (simp add: where_completed_def)

lemma where_late_fun:
  "where_late lid = (\<lambda>t. todoListId t = lid \<and> completionStatus t
      \<and> (\<exists>c. completionDateTime t = Some c \<and> dueDateTime t < c))"
  by (rule ext) (simp add: where_late_def split: option.split)

section \<open>getTaskCount\<close>

lemma getTaskCount_Some:
  "getTodoListByUser db (user_id user) = Some todolist \<Longrightarrow>
   getTaskCount db user =
     \<lparr>totalTasks = int (length (filter (\<lambda>t. todoListId t = list_id todolist) (tasks db))),
      completedTasks = int (length (filter
          (\<lambda>t. todoListId t = list_id todolist \<and> completionStatus t) (tasks db))),
      remainingTasks = int (length (filter (\<lambda>t. todoListId t = list_id todolist) (tasks db)))
        - int (length (filter
          (\<lambda>t. todoListId t = list_id todolist \<and> completionStatus t) (tasks db)))\<rparr>"
  by (simp add: getTaskCount_def taskModel_findAndCountAll_def taskModel_findAll_def
      taskModel_count_def where_list_fun Let_def)

lemma completed_le_total:
  "length (filter (\<lambda>t. todoListId t = lid \<and> completionStatus t) ts)
     \<le> length (filter (\<lambda>t. todoListId t = lid) ts)"
  by (induction ts) auto

text \<open>
  Claim C1.  When the list of the user holds \<open>N\<close> tasks of which \<open>K\<close> are completed,
  \<open>getTaskCount\<close> returns the record of \<open>N\<close>, \<open>K\<close> and \<open>N - K\<close>; and \<open>K \<le> N\<close>.
\<close>

theorem getTaskCount_counts:
  assumes "getTodoListByUser db (user_id user) = Some todolist"
    and "length (filter (\<lambda>t. todoListId t = list_id todolist) (tasks db)) = N"
    and "length (filter (\<lambda>t. todoListId t = list_id todolist \<and> completionStatus t) (tasks db)) = K"
  shows "getTaskCount db user =
           \<lparr>totalTasks = int N, completedTasks = int K, remainingTasks = int N - int K\<rparr>
         \<and> K \<le> N"
proof -
  from completed_le_total [of "list_id todolist" "tasks db"] assms(2,3)
  have "K \<le> N" by simp
  moreover from getTaskCount_Some [OF assms(1)] assms(2,3)
  have "getTaskCount db user =
           \<lparr>totalTasks = int N, completedTasks = int K, remainingTasks = int N - int K\<rparr>"
    by simp
  ultimately show ?thesis by simp
qed

theorem getTaskCount_counts_witness:
  "getTodoListByUser store_a (user_id (user_created 0)) = Some \<lparr>list_id = 10, userId = 1\<rparr>
   \<and> length (filter (\<lambda>t. todoListId t = 10) (tasks store_a)) = 5
   \<and> length (filter (\<lambda>t. todoListId t = 10 \<and> completionStatus t) (tasks store_a)) = 4
   \<and> getTaskCount store_a (user_created 0)
       = \<lparr>totalTasks = 5, completedTasks = 4, remainingTasks = 1\<rparr>"
proof -
  have l: "getTodoListByUser store_a (user_id (user_created 0))
             = Some \<lparr>list_id = 10, userId = 1\<rparr>"
    by (simp add: store_a_def list_of_user_1)
  have n: "length (filter (\<lambda>t. todoListId t = list_id \<lparr>list_id = 10, userId = 1\<rparr>)
             (tasks store_a)) = 5"
    by (simp add: store_a_def on_time_def other_list_def at_deadline_def late_second_day_def
        overdue_pending_def late_first_day_def)
  have k: "length (filter (\<lambda>t. todoListId t = list_id \<lparr>list_id = 10, userId = 1\<rparr>
              \<and> completionStatus t) (tasks store_a)) = 4"
    by (simp add: store_a_def on_time_def other_list_def at_deadline_def late_second_day_def
        overdue_pending_def late_first_day_def)
  from getTaskCount_counts [OF l n k] l n k show ?thesis by simp
qed

text \<open>
  Claim C9.  In every state of the store and for every user, with or without a list, the
  counts of the record returned by \<open>getTaskCount\<close> add up, and none of them is negative.
\<close>

theorem getTaskCount_invariant:
  "completedTasks (getTaskCount db user) + remainingTasks (getTaskCount db user)
     = totalTasks (getTaskCount db user)
   \<and> 0 \<le> completedTasks (getTaskCount db user)
   \<and> completedTasks (getTaskCount db user) \<le> totalTasks (getTaskCount db user)
   \<and> 0 \<le> remainingTasks (getTaskCount db user)"
proof (cases "getTodoListByUser db (user_id user)")
  case None
  then show ?thesis by (simp add: getTaskCount_def)
next
  case (Some todolist)
  from completed_le_total [of "list_id todolist" "tasks db"] getTaskCount_Some [OF Some]
  show ?thesis by simp
qed

theorem getTaskCount_invariant_witness:
  "completedTasks (getTaskCount store_a (user_created 0))
     + remainingTasks (getTaskCount store_a (user_created 0)) = 5
   \<and> totalTasks (getTaskCount store_a (user_created 0)) = 5
   \<and> completedTasks (getTaskCount store_a stranger)
     + remainingTasks (getTaskCount store_a stranger) = 0
   \<and> totalTasks (getTaskCount store_a stranger) = 0"
proof -
  have "getTodoListByUser store_a (user_id (user_created 0))
          = Some \<lparr>list_id = 10, userId = 1\<rparr>"
    by (simp add: store_a_def list_of_user_1)
  from getTaskCount_Some [OF this]
  have a: "totalTasks (getTaskCount store_a (user_created 0)) = 5"
    by (simp add: store_a_def on_time_def other_list_def at_deadline_def late_second_day_def
        overdue_pending_def late_first_day_def)
  have "\<forall>l \<in> set (todoLists store_a). userId l \<noteq> user_id stranger"
    by (simp add: store_a_def the_lists_def stranger_def)
  then have b: "totalTasks (getTaskCount store_a stranger) = 0"
    by (simp add: getTaskCount_def getTodoListByUser_absent)
  from getTaskCount_invariant [of store_a "user_created 0"]
    getTaskCount_invariant [of store_a stranger] a b
  show ?thesis by simp
qed

section \<open>getAvgTasksPerDay\<close>

lemma absFloor_of_int_div:
  "absFloor (real_of_int a / 86400000)
     = (if a < 0 then - ((- a) div 86400000) else a div 86400000)"
proof -
  have f: "\<lfloor>real_of_int a / 86400000\<rfloor> = a div 86400000"
    using floor_divide_of_int_eq [of a 86400000, where ?'a = real] by simp
  have c: "\<lceil>real_of_int a / 86400000\<rceil> = - ((- a) div 86400000)"
    using floor_divide_of_int_eq [of "- a" 86400000, where ?'a = real]
    by (simp add: ceiling_def)
  have "real_of_int a / 86400000 < 0 \<longleftrightarrow> a < 0"
    by (simp add: divide_less_0_iff)
  then show ?thesis by (simp add: absFloor_def f c)
qed

lemma diff_days_int:
  "diff_days host this that =
     (let a = this - that - (utcOffset host that - utcOffset host this) * 60000
      in if a < 0 then - ((- a) div 86400000) else a div 86400000)"
  by (simp only: diff_days_def Let_def absFloor_of_int_div)

lemma utcOffset_host_utc: "utcOffset host_utc t = 0"
  by (simp add: utcOffset_def getTimezoneOffset_def Math_round_def host_utc_def)

lemma now_host_utc: "now host_utc = 1704326400000"
  by (simp add: host_utc_def)

lemma diff_days_host_utc:
  "diff_days host_utc this that =
     (if this - that < 0 then - ((that - this) div 86400000) else (this - that) div 86400000)"
  by (simp add: diff_days_int utcOffset_host_utc Let_def)

lemma Math_floor_number_divide:
  "b \<noteq> 0 \<Longrightarrow> Math_floor (number_divide a b) = Finite (of_int (a div b))"
  by (simp add: number_divide_def floor_divide_of_int_eq)


lemma getAvgTasksPerDay_Some:
  assumes "getTodoListByUser db (user_id user) = Some todolist"
    and "diff_days host (now host) (createdAt user) \<noteq> 0"
  shows "getAvgTasksPerDay host db user =
           Finite (of_int (int (length (filter
               (\<lambda>t. todoListId t = list_id todolist \<and> completionStatus t) (tasks db)))
             div diff_days host (now host) (createdAt user)))"
  using assms
  by (simp add: getAvgTasksPerDay_def taskModel_count_def Math_floor_number_divide Let_def
      where_completed_fun)

lemma getAvgTasksPerDay_finite: "\<exists>r. getAvgTasksPerDay host db user = Finite r"
proof (cases "getTodoListByUser db (user_id user)")
  case None
  then show ?thesis by (simp add: getAvgTasksPerDay_def)
next
  case (Some todolist)
  show ?thesis
  proof (cases "diff_days host (now host) (createdAt user) = 0")
    case True
    with Some show ?thesis by (simp add: getAvgTasksPerDay_def)
  next
    case False
    from getAvgTasksPerDay_Some [OF Some False] show ?thesis by simp
  qed
qed

lemma seven_completed:
  "length (filter (\<lambda>t. todoListId t = list_id \<lparr>list_id = 10, userId = 1\<rparr> \<and> completionStatus t)
     (tasks store_seven)) = 7"
  by (simp add: store_seven_def on_time_def at_deadline_def late_second_day_def
      overdue_pending_def late_first_day_def)

text \<open>
  Claim C2.  For a user without a list the four operations return their neutral values:
  zero counts, the number 0, the count 0 and no date.
\<close>

theorem no_list_neutral_results:
  assumes "\<forall>l \<in> set (todoLists db). userId l \<noteq> user_id user"
  shows "getTaskCount db user = \<lparr>totalTasks = 0, completedTasks = 0, remainingTasks = 0\<rparr>
       \<and> getAvgTasksPerDay host db user = Finite 0
       \<and> getTasksNotCompletedOnTime db user = 0
       \<and> getDateWithMostCompletedTasks host db user = None"
  using getTodoListByUser_absent [OF assms]
  by (simp add: getTaskCount_def getAvgTasksPerDay_def getTasksNotCompletedOnTime_def
      getDateWithMostCompletedTasks_def)

theorem no_list_neutral_results_witness:
  "getTodoListByUser store_a (user_id stranger) = None
   \<and> getTaskCount store_a stranger = \<lparr>totalTasks = 0, completedTasks = 0, remainingTasks = 0\<rparr>
   \<and> getAvgTasksPerDay host_utc store_a stranger = Finite 0
   \<and> getTasksNotCompletedOnTime store_a stranger = 0
   \<and> getDateWithMostCompletedTasks host_utc store_a stranger = None"
proof -
  have h: "\<forall>l \<in> set (todoLists store_a). userId l \<noteq> user_id stranger"
    by (simp add: store_a_def the_lists_def stranger_def)
  from no_list_neutral_results [OF h, of host_utc] getTodoListByUser_absent [OF h]
  show ?thesis by simp
qed





text \<open>
  Claim C10.  There is an input with a list, a creation instant more than one whole day
  after now, a negative number of days since the creation and at least one completed task
  for which \<open>getAvgTasksPerDay\<close> returns a negative number: the guard compares the days
  with 0 only, and the floor of the quotient by the negative divisor is returned.  The input
  exhibited is a host whose clock reads 2024-01-04T00:00Z, a user created on
  2024-01-06T01:00Z and a list with seven completed tasks; the result is
  \<open>\<lfloor>7 / (- 2)\<rfloor> = - 4\<close>.
\<close>

theorem getAvgTasksPerDay_negative:
  "\<exists>host db user todolist days completedCount result.
      getTodoListByUser db (user_id user) = Some todolist
    \<and> now host + 86400000 < createdAt user
    \<and> diff_days host (now host) (createdAt user) = days \<and> days < 0
    \<and> taskModel_count db (where_completed (list_id todolist)) = completedCount
    \<and> 1 \<le> completedCount
    \<and> getAvgTasksPerDay host db user = Finite result
    \<and> result = of_int (completedCount div days)
    \<and> result < 0"
proof -
  define user where "user = user_created 1704502800000"
  have l: "getTodoListByUser store_seven (user_id user) = Some \<lparr>list_id = 10, userId = 1\<rparr>"
    by (simp add: user_def store_seven_def list_of_user_1)
  have f: "now host_utc + 86400000 < createdAt user"
    by (simp add: user_def host_utc_def user_created_def)
  have d: "diff_days host_utc (now host_utc) (createdAt user) = - 2"
    by (simp add: user_def diff_days_host_utc now_host_utc user_created_def)
  have c: "taskModel_count store_seven (where_completed (list_id \<lparr>list_id = 10, userId = 1\<rparr>)) = 7"
    using seven_completed by (simp add: taskModel_count_def where_completed_fun)
  have "diff_days host_utc (now host_utc) (createdAt user) \<noteq> 0" by (simp add: d)
  from getAvgTasksPerDay_Some [OF l this] seven_completed
  have r: "getAvgTasksPerDay host_utc store_seven user = Finite (of_int (7 div (- 2)))"
    by (simp add: d)
  from l f d c r show ?thesis
    by (intro exI [of _ host_utc] exI [of _ store_seven] exI [of _ user]
        exI [of _ "\<lparr>list_id = 10, userId = 1\<rparr>"] exI [of _ "- 2"] exI [of _ 7]
        exI [of _ "of_int (7 div (- 2))"]) simp
qed

section \<open>getTasksNotCompletedOnTime\<close>

lemma getTasksNotCompletedOnTime_Some:
  "getTodoListByUser db (user_id user) = Some todolist \<Longrightarrow>
   getTasksNotCompletedOnTime db user =
     int (length (filter
       (\<lambda>t. todoListId t = list_id todolist \<and> completionStatus t
          \<and> (\<exists>c. completionDateTime t = Some c \<and> dueDateTime t < c)) (tasks db)))"
  by (simp add: getTasksNotCompletedOnTime_def taskModel_count_def where_late_fun)

text \<open>
  Claim C5.  With a list, \<open>getTasksNotCompletedOnTime\<close> returns the number of the tasks of
  the list that are completed with a completion instant strictly after the deadline.  A
  further task that is not completed, whatever its deadline, or that has a completion
  instant at or before its deadline, leaves the result as it is.
\<close>

theorem getTasksNotCompletedOnTime_late_completions:
  assumes "getTodoListByUser db (user_id user) = Some todolist"
  shows "getTasksNotCompletedOnTime db user =
           int (length (filter
             (\<lambda>t. todoListId t = list_id todolist \<and> completionStatus t
                \<and> (\<exists>c. completionDateTime t = Some c \<and> dueDateTime t < c)) (tasks db)))
       \<and> (\<forall>t. \<not> completionStatus t \<longrightarrow>
             getTasksNotCompletedOnTime (db\<lparr>tasks := t # tasks db\<rparr>) user
               = getTasksNotCompletedOnTime db user)
       \<and> (\<forall>t c. completionDateTime t = Some c \<and> c \<le> dueDateTime t \<longrightarrow>
             getTasksNotCompletedOnTime (db\<lparr>tasks := t # tasks db\<rparr>) user
               = getTasksNotCompletedOnTime db user)"
proof -
  have l: "getTodoListByUser (db\<lparr>tasks := t # tasks db\<rparr>) (user_id user) = Some todolist" for t
    using assms by simp
  show ?thesis
    by (simp add: getTasksNotCompletedOnTime_Some [OF assms] getTasksNotCompletedOnTime_Some [OF l])
qed

theorem getTasksNotCompletedOnTime_late_completions_witness:
  "getTodoListByUser store_a (user_id (user_created 0)) = Some \<lparr>list_id = 10, userId = 1\<rparr>
   \<and> getTasksNotCompletedOnTime store_a (user_created 0) = 2
   \<and> getTasksNotCompletedOnTime (store_a\<lparr>tasks := overdue_pending # tasks store_a\<rparr>)
        (user_created 0) = 2
   \<and> getTasksNotCompletedOnTime (store_a\<lparr>tasks := at_deadline # tasks store_a\<rparr>)
        (user_created 0) = 2"
proof -
  have l: "getTodoListByUser store_a (user_id (user_created 0))
             = Some \<lparr>list_id = 10, userId = 1\<rparr>"
    by (simp add: store_a_def list_of_user_1)
  have p: "\<not> completionStatus overdue_pending" by (simp add: overdue_pending_def)
  have d: "completionDateTime at_deadline = Some 1704182400000
           \<and> 1704182400000 \<le> dueDateTime at_deadline"
    by (simp add: at_deadline_def)
  have n: "length (filter
             (\<lambda>t. todoListId t = list_id \<lparr>list_id = 10, userId = 1\<rparr> \<and> completionStatus t
                \<and> (\<exists>c. completionDateTime t = Some c \<and> dueDateTime t < c)) (tasks store_a)) = 2"
    by (simp add: store_a_def on_time_def other_list_def at_deadline_def late_second_day_def
        overdue_pending_def late_first_day_def)
  from getTasksNotCompletedOnTime_late_completions [OF l]
  have "getTasksNotCompletedOnTime store_a (user_created 0) = 2"
    and "getTasksNotCompletedOnTime (store_a\<lparr>tasks := overdue_pending # tasks store_a\<rparr>)
           (user_created 0) = getTasksNotCompletedOnTime store_a (user_created 0)"
    and "getTasksNotCompletedOnTime (store_a\<lparr>tasks := at_deadline # tasks store_a\<rparr>)
           (user_created 0) = getTasksNotCompletedOnTime store_a (user_created 0)"
    using p d n by simp_all
  with l show ?thesis by simp
qed

section \<open>Grouping by date and the search for the maximum\<close>

lemma first_seen_snoc:
  "first_seen (xs @ [x]) = (if x \<in> set xs then first_seen xs else first_seen xs @ [x])"
  by (simp add: first_seen_def)

lemma set_first_seen: "set (first_seen xs) = set xs"
  by (simp add: first_seen_def)

lemma distinct_first_seen: "distinct (first_seen xs)"
  by (simp add: first_seen_def)

lemma remdups_map_inj: "inj f \<Longrightarrow> remdups (map f xs) = map f (remdups xs)"
  by (induction xs) (auto simp add: inj_eq)

lemma first_seen_map_inj: "inj f \<Longrightarrow> first_seen (map f xs) = map f (first_seen xs)"
  by (simp add: first_seen_def rev_map remdups_map_inj)

text \<open>Every element before the first occurrence of \<open>d\<close> is listed before \<open>d\<close>.\<close>

lemma first_seen_split:
  "first_seen xs = A @ d # B \<Longrightarrow>
   \<exists>xs1 xs2. xs = xs1 @ d # xs2 \<and> d \<notin> set xs1 \<and> set xs1 \<subseteq> set A"
proof (induction xs arbitrary: A B rule: rev_induct)
  case Nil
  then show ?case by (simp add: first_seen_def)
next
  case (snoc x xs)
  show ?case
  proof (cases "x \<in> set xs")
    case True
    with snoc.prems have "first_seen xs = A @ d # B" by (simp add: first_seen_snoc)
    from snoc.IH [OF this] obtain xs1 xs2
      where "xs = xs1 @ d # xs2" "d \<notin> set xs1" "set xs1 \<subseteq> set A" by blast
    then have "xs @ [x] = xs1 @ d # (xs2 @ [x]) \<and> d \<notin> set xs1 \<and> set xs1 \<subseteq> set A" by simp
    then show ?thesis by blast
  next
    case False
    with snoc.prems have eq: "first_seen xs @ [x] = A @ d # B" by (simp add: first_seen_snoc)
    show ?thesis
    proof (cases B rule: rev_cases)
      case Nil
      with eq have "first_seen xs = A" "x = d" by simp_all
      then have "xs @ [x] = xs @ d # [] \<and> d \<notin> set xs \<and> set xs \<subseteq> set A"
        using False set_first_seen [of xs] by simp
      then show ?thesis by blast
    next
      case (snoc B' b)
      with eq have "first_seen xs = A @ d # B'" by simp
      from snoc.IH [OF this] obtain xs1 xs2
        where "xs = xs1 @ d # xs2" "d \<notin> set xs1" "set xs1 \<subseteq> set A" by blast
      then have "xs @ [x] = xs1 @ d # (xs2 @ [x]) \<and> d \<notin> set xs1 \<and> set xs1 \<subseteq> set A" by simp
      then show ?thesis by blast
    qed
  qed
qed

lemma increment_map:
  "distinct ks \<Longrightarrow>
   increment (map (\<lambda>k. (k, f k)) ks) x =
     (if x \<in> set ks then map (\<lambda>k. (k, if k = x then f k + 1 else f k)) ks
      else map (\<lambda>k. (k, f k)) ks @ [(x, 1)])"
  by (induction ks) auto

lemma foldl_increment:
  "foldl increment [] ds = map (\<lambda>k. (k, int (count_list ds k))) (first_seen ds)"
proof (induction ds rule: rev_induct)
  case Nil
  show ?case by (simp add: first_seen_def)
next
  case (snoc x ds)
  have "foldl increment [] (ds @ [x])
        = increment (map (\<lambda>k. (k, int (count_list ds k))) (first_seen ds)) x"
    by (simp add: snoc.IH)
  also have "\<dots> = map (\<lambda>k. (k, int (count_list (ds @ [x]) k))) (first_seen (ds @ [x]))"
  proof (cases "x \<in> set ds")
    case True
    then show ?thesis
      by (simp add: increment_map distinct_first_seen set_first_seen first_seen_snoc)
  next
    case False
    then have "map (\<lambda>k. (k, int (count_list ds k) + int (count_list [x] k))) (first_seen ds)
             = map (\<lambda>k. (k, int (count_list ds k))) (first_seen ds)"
      by (intro map_cong refl) (auto simp add: set_first_seen)
    with False show ?thesis
      by (simp add: increment_map distinct_first_seen set_first_seen first_seen_snoc)
  qed
  finally show ?case .
qed

lemma count_list_map_filter:
  "int (count_list (map f ts) k) = int (length (filter (\<lambda>t. f t = k) ts))"
  by (induction ts) auto

text \<open>
  The object built by the \<^verbatim>\<open>reduce\<close> lists the distinct keys in the order of their first
  occurrence among the rows, each with the number of rows of that key.
\<close>

lemma tasksByDate_grouped:
  "tasksByDate host ts =
     map (\<lambda>date. (date, rows_under host ts date)) (first_seen (map (groupKey host) ts))"
proof -
  have "tasksByDate host ts = foldl increment [] (map (groupKey host) ts)"
    by (simp add: tasksByDate_def foldl_map groupKey_def)
  then show ?thesis
    by (simp add: foldl_increment rows_under_def count_list_map_filter)
qed

text \<open>
  No formatted date consists of digits only, so none is an array index, and the entries
  of the grouped object are listed in the order of their creation.
\<close>

lemma format_not_array_index: "\<not> isArrayIndex (format_YYYY_MM_DD host input)"
proof -
  have "\<not> list_all isDigit (format_YYYY_MM_DD host input)"
    by (cases input) (simp_all add: format_YYYY_MM_DD_def isDigit_def)
  then show ?thesis by (simp add: isArrayIndex_def)
qed

lemma Object_entries_tasksByDate: "Object_entries (tasksByDate host ts) = tasksByDate host ts"
proof -
  have "\<not> isArrayIndex (fst e)" if "e \<in> set (tasksByDate host ts)" for e
  proof -
    from that obtain t where "fst e = groupKey host t"
      by (auto simp add: tasksByDate_grouped set_first_seen)
    then show ?thesis by (simp add: groupKey_def format_not_array_index)
  qed
  then have "filter (\<lambda>e. isArrayIndex (fst e)) (tasksByDate host ts) = []"
      and "filter (\<lambda>e. \<not> isArrayIndex (fst e)) (tasksByDate host ts) = tasksByDate host ts"
    by (simp_all add: filter_empty_conv filter_id_conv)
  then show ?thesis by (simp add: Object_entries_def)
qed

lemma rows_under_pos:
  "t \<in> set ts \<Longrightarrow> 0 < rows_under host ts (groupKey host t)"
  by (simp add: rows_under_def filter_empty_conv) blast

text \<open>
  The loop either leaves the pair as it is, no entry having a greater count, or ends on
  an entry of a greater count before which every count is strictly smaller and after
  which no count is greater.
\<close>

lemma findMax_cases:
  "(findMax (maxDate, maxCount) entries = (maxDate, maxCount)
      \<and> (\<forall>e \<in> set entries. snd e \<le> maxCount))
   \<or> (\<exists>pre date c post.
         entries = pre @ (date, c) # post
       \<and> findMax (maxDate, maxCount) entries = (Some date, c)
       \<and> maxCount < c
       \<and> (\<forall>e \<in> set pre. snd e < c)
       \<and> (\<forall>e \<in> set post. snd e \<le> c))"
proof (induction entries arbitrary: maxDate maxCount)
  case Nil
  show ?case by simp
next
  case (Cons e entries)
  obtain date n where e: "e = (date, n)" by (cases e)
  show ?case
  proof (cases "n > maxCount")
    case True
    from Cons.IH [of "Some date" n]
    show ?thesis
    proof
      assume a: "findMax (Some date, n) entries = (Some date, n)
                 \<and> (\<forall>e \<in> set entries. snd e \<le> n)"
      have "e # entries = [] @ (date, n) # entries" by (simp add: e)
      moreover have "findMax (maxDate, maxCount) (e # entries) = (Some date, n)"
        using True a by (simp add: e)
      moreover have "\<forall>x \<in> set []. snd x < n" by simp
      ultimately show ?thesis using True a by blast
    next
      assume "\<exists>pre d c post. entries = pre @ (d, c) # post
         \<and> findMax (Some date, n) entries = (Some d, c) \<and> n < c
         \<and> (\<forall>e \<in> set pre. snd e < c) \<and> (\<forall>e \<in> set post. snd e \<le> c)"
      then obtain pre d c post where b: "entries = pre @ (d, c) # post"
         "findMax (Some date, n) entries = (Some d, c)" "n < c"
         "\<forall>e \<in> set pre. snd e < c" "\<forall>e \<in> set post. snd e \<le> c" by blast
      have "e # entries = (e # pre) @ (d, c) # post" by (simp add: b(1))
      moreover have "findMax (maxDate, maxCount) (e # entries) = (Some d, c)"
        using True b(2) by (simp add: e)
      moreover have "maxCount < c" using True b(3) by simp
      moreover have "\<forall>x \<in> set (e # pre). snd x < c" using b(3,4) by (simp add: e)
      ultimately show ?thesis using b(5) by blast
    qed
  next
    case False
    from Cons.IH [of maxDate maxCount]
    show ?thesis
    proof
      assume a: "findMax (maxDate, maxCount) entries = (maxDate, maxCount)
                 \<and> (\<forall>e \<in> set entries. snd e \<le> maxCount)"
      with False e show ?thesis by simp
    next
      assume "\<exists>pre d c post. entries = pre @ (d, c) # post
         \<and> findMax (maxDate, maxCount) entries = (Some d, c) \<and> maxCount < c
         \<and> (\<forall>e \<in> set pre. snd e < c) \<and> (\<forall>e \<in> set post. snd e \<le> c)"
      then obtain pre d c post where b: "entries = pre @ (d, c) # post"
         "findMax (maxDate, maxCount) entries = (Some d, c)" "maxCount < c"
         "\<forall>e \<in> set pre. snd e < c" "\<forall>e \<in> set post. snd e \<le> c" by blast
      have "e # entries = (e # pre) @ (d, c) # post" by (simp add: b(1))
      moreover have "findMax (maxDate, maxCount) (e # entries) = (Some d, c)"
        using False b(2) by (simp add: e)
      moreover have "\<forall>x \<in> set (e # pre). snd x < c" using False b(3,4) by (simp add: e)
      ultimately show ?thesis using b(3,5) by blast
    qed
  qed
qed

lemma findMax_Some_key:
  assumes "fst (findMax (None, 0) entries) = Some date"
  shows "date \<in> fst ` set entries"
  using findMax_cases [of None 0 entries] assms by force

lemma findMax_tasksByDate:
  assumes "ts \<noteq> []"
  shows "\<exists>pre date post.
           pre @ date # post = first_seen (map (groupKey host) ts)
         \<and> fst (findMax (None, 0) (Object_entries (tasksByDate host ts))) = Some date
         \<and> (\<forall>d \<in> set pre. rows_under host ts d < rows_under host ts date)
         \<and> (\<forall>d \<in> set post. rows_under host ts d \<le> rows_under host ts date)"
proof -
  define n where "n = rows_under host ts"
  define keys where "keys = first_seen (map (groupKey host) ts)"
  define entries where "entries = map (\<lambda>d. (d, n d)) keys"
  have entries: "Object_entries (tasksByDate host ts) = entries"
    unfolding Object_entries_tasksByDate
    by (simp add: tasksByDate_grouped entries_def keys_def n_def)
  from assms obtain t where t: "t \<in> set ts" by (cases ts) auto
  then have "groupKey host t \<in> set keys" by (simp add: keys_def set_first_seen)
  moreover from t have "0 < n (groupKey host t)" by (simp add: n_def rows_under_pos)
  ultimately have "(groupKey host t, n (groupKey host t)) \<in> set entries"
      "\<not> snd (groupKey host t, n (groupKey host t)) \<le> 0"
    by (simp_all add: entries_def)
  then have some: "\<exists>e \<in> set entries. \<not> snd e \<le> 0" by blast
  from findMax_cases [of None 0 entries] some
  obtain pre' date c post' where r: "entries = pre' @ (date, c) # post'"
      "findMax (None, 0) entries = (Some date, c)"
      "\<forall>e \<in> set pre'. snd e < c" "\<forall>e \<in> set post'. snd e \<le> c"
    by blast
  from r(1) have "map (\<lambda>d. (d, n d)) keys = pre' @ (date, c) # post'" by (simp add: entries_def)
  then obtain pre post where k: "keys = pre @ date # post" "pre' = map (\<lambda>d. (d, n d)) pre"
      "post' = map (\<lambda>d. (d, n d)) post" "c = n date"
    by (auto simp add: map_eq_append_conv map_eq_Cons_conv)
  from r(3) k(2,4) have "\<forall>d \<in> set pre. n d < n date" by simp
  moreover from r(4) k(3,4) have "\<forall>d \<in> set post. n d \<le> n date" by simp
  moreover from r(2) have "fst (findMax (None, 0) (Object_entries (tasksByDate host ts))) = Some date"
    by (simp add: entries)
  ultimately show ?thesis using k(1) [symmetric] unfolding n_def keys_def by blast
qed

section \<open>The example data, evaluated\<close>

lemma decimal_digit: "n < 10 \<Longrightarrow> decimal n = [digit n]"
  by (subst decimal.simps) simp

lemma decimal_step: "10 \<le> n \<Longrightarrow> decimal n = decimal (n div 10) @ [digit (n mod 10)]"
  by (subst decimal.simps) simp

lemma zeroFill_values:
  "zeroFill 2024 4 = ''2024''"
  "zeroFill 10000 4 = ''10000''"
  "zeroFill 1 2 = ''01''"
  "zeroFill 2 2 = ''02''"
  by (simp_all add: zeroFill_def Let_def decimal_step decimal_digit digit_def)

lemma civil_values:
  "civil_from_days (localDay host_utc 1704099600000) = (2024, 1, 1)"
  "civil_from_days (localDay host_utc 1704182400000) = (2024, 1, 2)"
  "civil_from_days (localDay host_utc 1704189600000) = (2024, 1, 2)"
  "civil_from_days (localDay host_utc 1704151800000) = (2024, 1, 1)"
  "civil_from_days (localDay host_utc 253402300800000) = (10000, 1, 1)"
  by code_simp+

lemma format_values:
  "format_YYYY_MM_DD host_utc (Some 1704099600000) = ''2024-01-01''"
  "format_YYYY_MM_DD host_utc (Some 1704182400000) = ''2024-01-02''"
  "format_YYYY_MM_DD host_utc (Some 1704189600000) = ''2024-01-02''"
  "format_YYYY_MM_DD host_utc (Some 1704151800000) = ''2024-01-01''"
  "format_YYYY_MM_DD host_utc (Some 253402300800000) = ''10000-01-01''"
  "format_YYYY_MM_DD host_utc None = ''Invalid date''"
  by (simp_all add: format_YYYY_MM_DD_def moment_year_def moment_month_def moment_date_def
      civil_values zeroFill_values)

text \<open>
  In a zone whose offset has seconds the date is that of the local fields, while the
  offset in whole minutes that \<^verbatim>\<open>diff\<close> reads is rounded.
\<close>

lemma format_reads_local_fields:
  "utcOffset host_seconds 0 = 0"
  "format_YYYY_MM_DD host_seconds (Some 0) = ''1969-12-31''"
proof -
  show "utcOffset host_seconds 0 = 0"
    by (simp add: utcOffset_def getTimezoneOffset_def Math_round_def host_seconds_def)
  have "civil_from_days (localDay host_seconds 0) = (1969, 12, 31)" by code_simp
  moreover have "zeroFill 1969 4 = ''1969''" "zeroFill 12 2 = ''12''" "zeroFill 31 2 = ''31''"
    by (simp_all add: zeroFill_def Let_def decimal_step decimal_digit digit_def)
  ultimately show "format_YYYY_MM_DD host_seconds (Some 0) = ''1969-12-31''"
    by (simp add: format_YYYY_MM_DD_def moment_year_def moment_month_def moment_date_def)
qed

lemma completed_of_store_a:
  "filter (\<lambda>t. todoListId t = list_id \<lparr>list_id = 10, userId = 1\<rparr> \<and> completionStatus t)
     (tasks store_a) = [on_time, at_deadline, late_second_day, late_first_day]"
  by (simp add: store_a_def on_time_def other_list_def at_deadline_def late_second_day_def
      overdue_pending_def late_first_day_def)

lemma entries_of_store_a:
  "Object_entries (tasksByDate host_utc [on_time, at_deadline, late_second_day, late_first_day])
     = [(''2024-01-01'', 2), (''2024-01-02'', 2)]"
  unfolding Object_entries_tasksByDate
  by (simp add: tasksByDate_def on_time_def at_deadline_def late_second_day_def
      late_first_day_def format_values)

lemma result_of_store_a:
  "getDateWithMostCompletedTasks host_utc store_a (user_created 0) = Some ''2024-01-01''"
  using completed_of_store_a
  by (simp add: getDateWithMostCompletedTasks_def taskModel_findAll_def where_completed_fun
      store_a_def list_of_user_1 entries_of_store_a)

lemma result_of_store_without_date:
  "getDateWithMostCompletedTasks host_utc store_without_date (user_created 0)
     = Some ''Invalid date''"
  unfolding getDateWithMostCompletedTasks_def Object_entries_tasksByDate
  by (simp add: taskModel_findAll_def where_completed_def store_without_date_def
      list_of_user_1 completed_without_date_def tasksByDate_def format_values)

lemma result_of_store_year_10000:
  "getDateWithMostCompletedTasks host_utc store_year_10000 (user_created 0)
     = Some ''10000-01-01''"
  unfolding getDateWithMostCompletedTasks_def Object_entries_tasksByDate
  by (simp add: taskModel_findAll_def where_completed_def store_year_10000_def
      list_of_user_1 completed_year_10000_def tasksByDate_def format_values)

lemma date_only_values:
  "\<not> is_YYYY_MM_DD ''Invalid date''"
  "\<not> is_YYYY_MM_DD ''10000-01-01''"
  "is_YYYY_MM_DD ''2024-01-01''"
  by (simp_all add: is_YYYY_MM_DD_def isDigit_def)

section \<open>getDateWithMostCompletedTasks\<close>

lemma getDateWithMostCompletedTasks_Some_list:
  "getTodoListByUser db (user_id user) = Some todolist \<Longrightarrow>
   getDateWithMostCompletedTasks host db user =
     fst (findMax (None, 0) (Object_entries (tasksByDate host
       (filter (\<lambda>t. todoListId t = list_id todolist \<and> completionStatus t) (tasks db)))))"
  by (simp add: getDateWithMostCompletedTasks_def taskModel_findAll_def where_completed_fun)

lemma dated_rows:
  assumes "\<forall>t \<in> set ts. completionDateTime t \<noteq> None"
  shows "map (completionDate host) ts = map Some (map (groupKey host) ts)"
    and "completions_on host ts d = rows_under host ts d"
proof -
  have k: "completionDate host t = Some (groupKey host t)" if "t \<in> set ts" for t
    using that assms by (auto simp add: completionDate_def groupKey_def split: option.split)
  then show "map (completionDate host) ts = map Some (map (groupKey host) ts)" by simp
  have "filter (\<lambda>t. completionDate host t = Some d) ts = filter (\<lambda>t. groupKey host t = d) ts"
    by (rule filter_cong) (simp_all add: k)
  then show "completions_on host ts d = rows_under host ts d"
    by (simp add: completions_on_def rows_under_def)
qed

text \<open>
  Claim C6, as stated, fails.  The one completed task of the list has no completion
  instant, hence no completion date, and the text \<^verbatim>\<open>Invalid date\<close> under which it is
  grouped is returned: the result is the completion date of no task.
\<close>

theorem getDateWithMostCompletedTasks_not_a_completion_date:
  "getTodoListByUser store_without_date (user_id (user_created 0))
     = Some \<lparr>list_id = 10, userId = 1\<rparr>
   \<and> filter (\<lambda>t. todoListId t = 10 \<and> completionStatus t) (tasks store_without_date)
       = [completed_without_date]
   \<and> completionDateTime completed_without_date = None
   \<and> getDateWithMostCompletedTasks host_utc store_without_date (user_created 0)
       = Some ''Invalid date''
   \<and> Some ''Invalid date'' \<notin> completionDate host_utc ` set (tasks store_without_date)"
  by (simp add: result_of_store_without_date)
     (simp add: store_without_date_def list_of_user_1 completed_without_date_def
        completionDate_def)

text \<open>
  Claim C6, amended.  With a list that holds at least one completed task, every completed
  task having a completion instant, the entries of the grouped object are the distinct
  completion dates in the order of their first occurrence among the completed rows, each
  with its number of completions, and \<open>getDateWithMostCompletedTasks\<close> returns the
  completion date of an entry such that every entry before it has a strictly smaller count
  and no entry after it has a greater one: the first date, in the order of iteration, of
  the highest number of completions.
\<close>

theorem getDateWithMostCompletedTasks_first_maximum:
  assumes "getTodoListByUser db (user_id user) = Some todolist"
    and "completed = filter (\<lambda>t. todoListId t = list_id todolist \<and> completionStatus t) (tasks db)"
    and "completed \<noteq> []"
    and "\<forall>t \<in> set completed. completionDateTime t \<noteq> None"
  shows "\<exists>pre date post.
           Object_entries (tasksByDate host completed)
             = map (\<lambda>d. (d, completions_on host completed d)) (pre @ date # post)
         \<and> map Some (pre @ date # post) = first_seen (map (completionDate host) completed)
         \<and> getDateWithMostCompletedTasks host db user = Some date
         \<and> Some date \<in> completionDate host ` set completed
         \<and> (\<forall>d \<in> set pre. completions_on host completed d < completions_on host completed date)
         \<and> (\<forall>d \<in> set post. completions_on host completed d \<le> completions_on host completed date)"
proof -
  note dated = dated_rows [OF assms(4), of host]
  from findMax_tasksByDate [OF assms(3), of host]
  obtain pre date post where r:
      "pre @ date # post = first_seen (map (groupKey host) completed)"
      "fst (findMax (None, 0) (Object_entries (tasksByDate host completed))) = Some date"
      "\<forall>d \<in> set pre. rows_under host completed d < rows_under host completed date"
      "\<forall>d \<in> set post. rows_under host completed d \<le> rows_under host completed date"
    by blast
  have e: "Object_entries (tasksByDate host completed)
          = map (\<lambda>d. (d, completions_on host completed d)) (pre @ date # post)"
    unfolding r(1) Object_entries_tasksByDate by (simp add: tasksByDate_grouped dated(2))
  have f: "map Some (pre @ date # post) = first_seen (map (completionDate host) completed)"
    unfolding r(1) dated(1) by (rule first_seen_map_inj [symmetric]) simp
  have g: "getDateWithMostCompletedTasks host db user = Some date"
    using getDateWithMostCompletedTasks_Some_list [OF assms(1), of host] r(2) assms(2) by simp
  have "Some date \<in> set (map Some (pre @ date # post))" by simp
  then have "Some date \<in> set (map (completionDate host) completed)"
    by (simp only: f set_first_seen)
  then have h: "Some date \<in> completionDate host ` set completed" by simp
  from r(3,4) have i: "\<forall>d \<in> set pre. completions_on host completed d < completions_on host completed date"
      and j: "\<forall>d \<in> set post. completions_on host completed d \<le> completions_on host completed date"
    by (simp_all add: dated(2))
  from e f g h i j show ?thesis by blast
qed

theorem getDateWithMostCompletedTasks_first_maximum_witness:
  "getTodoListByUser store_a (user_id (user_created 0)) = Some \<lparr>list_id = 10, userId = 1\<rparr>
   \<and> filter (\<lambda>t. todoListId t = 10 \<and> completionStatus t) (tasks store_a)
       = [on_time, at_deadline, late_second_day, late_first_day]
   \<and> map (completionDate host_utc) [on_time, at_deadline, late_second_day, late_first_day]
       = [Some ''2024-01-01'', Some ''2024-01-02'', Some ''2024-01-02'', Some ''2024-01-01'']
   \<and> Object_entries (tasksByDate host_utc [on_time, at_deadline, late_second_day, late_first_day])
       = [(''2024-01-01'', 2), (''2024-01-02'', 2)]
   \<and> getDateWithMostCompletedTasks host_utc store_a (user_created 0) = Some ''2024-01-01''"
proof -
  have l: "getTodoListByUser store_a (user_id (user_created 0))
             = Some \<lparr>list_id = 10, userId = 1\<rparr>"
    by (simp add: store_a_def list_of_user_1)
  have ne: "[on_time, at_deadline, late_second_day, late_first_day] \<noteq> []" by simp
  have dt: "\<forall>t \<in> set [on_time, at_deadline, late_second_day, late_first_day].
              completionDateTime t \<noteq> None"
    by (simp add: on_time_def at_deadline_def late_second_day_def late_first_day_def)
  have cd: "map (completionDate host_utc) [on_time, at_deadline, late_second_day, late_first_day]
       = [Some ''2024-01-01'', Some ''2024-01-02'', Some ''2024-01-02'', Some ''2024-01-01'']"
    by (simp add: completionDate_def on_time_def at_deadline_def late_second_day_def
        late_first_day_def format_values)
  from getDateWithMostCompletedTasks_first_maximum
         [OF l completed_of_store_a [symmetric] ne dt, of host_utc]
  obtain pre date post where r:
      "Object_entries (tasksByDate host_utc [on_time, at_deadline, late_second_day, late_first_day])
         = map (\<lambda>d. (d, completions_on host_utc
                  [on_time, at_deadline, late_second_day, late_first_day] d)) (pre @ date # post)"
      "getDateWithMostCompletedTasks host_utc store_a (user_created 0) = Some date"
      "\<forall>d \<in> set pre. completions_on host_utc
           [on_time, at_deadline, late_second_day, late_first_day] d
         < completions_on host_utc [on_time, at_deadline, late_second_day, late_first_day] date"
    by blast
  from r(1) have "map fst [(''2024-01-01'', 2::int), (''2024-01-02'', 2)]
                    = map fst (map (\<lambda>d. (d, completions_on host_utc
                        [on_time, at_deadline, late_second_day, late_first_day] d))
                        (pre @ date # post))"
    by (simp only: entries_of_store_a)
  then have keys: "pre @ date # post = [''2024-01-01'', ''2024-01-02'']"
    by (simp add: comp_def)
  from r(1) have "map snd [(''2024-01-01'', 2::int), (''2024-01-02'', 2)]
                    = map snd (map (\<lambda>d. (d, completions_on host_utc
                        [on_time, at_deadline, late_second_day, late_first_day] d))
                        (pre @ date # post))"
    by (simp only: entries_of_store_a)
  then have counts: "map (completions_on host_utc
           [on_time, at_deadline, late_second_day, late_first_day]) (pre @ date # post) = [2, 2]"
    by (simp add: comp_def)
  have "pre = []"
  proof (rule ccontr)
    assume "pre \<noteq> []"
    with keys have p: "pre = [''2024-01-01'']" "date = ''2024-01-02''" "post = []"
      by (auto simp add: append_eq_Cons_conv Cons_eq_append_conv)
    from counts have "completions_on host_utc
           [on_time, at_deadline, late_second_day, late_first_day] ''2024-01-01'' = 2"
       "completions_on host_utc
           [on_time, at_deadline, late_second_day, late_first_day] ''2024-01-02'' = 2"
      unfolding p by simp_all
    with r(3) show False unfolding p by simp
  qed
  with keys have "date = ''2024-01-01''" by simp
  with r(2) l completed_of_store_a entries_of_store_a cd show ?thesis by simp
qed

text \<open>
  In terms of the rows: the result is the key of a completed row such that every row the
  database returned before it belongs to a key of strictly fewer rows, and no key has more
  rows.
\<close>

lemma getDateWithMostCompletedTasks_first_row:
  assumes "getTodoListByUser db (user_id user) = Some todolist"
    and "completed = filter (\<lambda>t. todoListId t = list_id todolist \<and> completionStatus t) (tasks db)"
    and "completed \<noteq> []"
  shows "\<exists>before task after.
           completed = before @ task # after
         \<and> getDateWithMostCompletedTasks host db user = Some (groupKey host task)
         \<and> (\<forall>t \<in> set before. rows_under host completed (groupKey host t)
                < rows_under host completed (groupKey host task))
         \<and> (\<forall>t \<in> set completed. rows_under host completed (groupKey host t)
                \<le> rows_under host completed (groupKey host task))"
proof -
  define n where "n = rows_under host completed"
  from findMax_tasksByDate [OF assms(3), of host]
  obtain pre date post where r:
      "pre @ date # post = first_seen (map (groupKey host) completed)"
      "fst (findMax (None, 0) (Object_entries (tasksByDate host completed))) = Some date"
      "\<forall>d \<in> set pre. n d < n date"
      "\<forall>d \<in> set post. n d \<le> n date"
    unfolding n_def by blast
  from first_seen_split [OF r(1) [symmetric]]
  obtain ds1 ds2 where s: "map (groupKey host) completed = ds1 @ date # ds2"
      "date \<notin> set ds1" "set ds1 \<subseteq> set pre"
    by blast
  then obtain before task after where c: "completed = before @ task # after"
      "ds1 = map (groupKey host) before" "groupKey host task = date"
    by (auto simp add: map_eq_append_conv map_eq_Cons_conv)
  have res: "getDateWithMostCompletedTasks host db user = Some (groupKey host task)"
    using getDateWithMostCompletedTasks_Some_list [OF assms(1), of host] r(2) assms(2) c(3)
    by simp
  have lt: "\<forall>t \<in> set before. n (groupKey host t) < n (groupKey host task)"
    using s(3) c(2,3) r(3) by auto
  have "set (map (groupKey host) completed) = set (pre @ date # post)"
    by (simp only: r(1) set_first_seen)
  then have "\<forall>t \<in> set completed. groupKey host t \<in> set pre \<union> {date} \<union> set post"
    by auto
  with r(3,4) have le: "\<forall>t \<in> set completed. n (groupKey host t) \<le> n (groupKey host task)"
    unfolding c(3) by fastforce
  from c(1) res lt le show ?thesis unfolding n_def by blast
qed

text \<open>
  Claim C7.  With a list none of whose tasks is completed, pending tasks or not,
  \<open>getDateWithMostCompletedTasks\<close> returns no date.
\<close>

theorem getDateWithMostCompletedTasks_no_completed:
  assumes "getTodoListByUser db (user_id user) = Some todolist"
    and "\<forall>t \<in> set (tasks db). todoListId t = list_id todolist \<longrightarrow> \<not> completionStatus t"
  shows "getDateWithMostCompletedTasks host db user = None"
proof -
  from assms(2)
  have "filter (\<lambda>t. todoListId t = list_id todolist \<and> completionStatus t) (tasks db) = []"
    by (simp add: filter_empty_conv)
  with getDateWithMostCompletedTasks_Some_list [OF assms(1), of host]
  show ?thesis unfolding Object_entries_tasksByDate by (simp add: tasksByDate_def)
qed

theorem getDateWithMostCompletedTasks_no_completed_witness:
  "getTodoListByUser store_pending (user_id (user_created 0))
     = Some \<lparr>list_id = 10, userId = 1\<rparr>
   \<and> filter (\<lambda>t. todoListId t = 10) (tasks store_pending) = [overdue_pending]
   \<and> getDateWithMostCompletedTasks host_utc store_pending (user_created 0) = None"
proof -
  have l: "getTodoListByUser store_pending (user_id (user_created 0))
             = Some \<lparr>list_id = 10, userId = 1\<rparr>"
    by (simp add: store_pending_def list_of_user_1)
  have p: "\<forall>t \<in> set (tasks store_pending).
             todoListId t = list_id \<lparr>list_id = 10, userId = 1\<rparr> \<longrightarrow> \<not> completionStatus t"
    by (simp add: store_pending_def overdue_pending_def other_list_def)
  have f: "filter (\<lambda>t. todoListId t = 10) (tasks store_pending) = [overdue_pending]"
    by (simp add: store_pending_def overdue_pending_def other_list_def)
  from getDateWithMostCompletedTasks_no_completed [OF l p, of host_utc] l f
  show ?thesis by simp
qed

section \<open>The form of a formatted date\<close>

lemma day_of_year_bounds:
  fixes q :: int
  assumes "0 \<le> q" "q \<le> 1460"
  shows "0 \<le> q - min 3 (q div 365) * 365 \<and> q - min 3 (q div 365) * 365 \<le> 365"
proof (cases "q div 365 \<le> 3")
  case True
  have "q - (q div 365) * 365 = q mod 365" by (simp add: minus_div_mult_eq_mod)
  moreover have "0 \<le> q mod 365" "q mod 365 < 365" by simp_all
  ultimately show ?thesis using True by (simp add: min_def)
next
  case False
  then have "4 \<le> q div 365" by simp
  then have "1460 \<le> q" by simp
  with assms False show ?thesis by (simp add: min_def)
qed

lemma year_and_day_bounds:
  "0 \<le> snd (year_and_day day) \<and> snd (year_and_day day) \<le> 365"
proof -
  define doc where "doc = (day + 719468) mod 146097
      - min 3 ((day + 719468) mod 146097 div 36524) * 36524"
  have "0 \<le> doc mod 1461" by (rule pos_mod_sign) simp
  moreover have "doc mod 1461 < 1461" by (rule pos_mod_bound) simp
  then have "doc mod 1461 \<le> 1460" by simp
  ultimately have "0 \<le> doc mod 1461 - min 3 (doc mod 1461 div 365) * 365
     \<and> doc mod 1461 - min 3 (doc mod 1461 div 365) * 365 \<le> 365"
    by (rule day_of_year_bounds)
  then show ?thesis
    unfolding year_and_day_def Let_def snd_conv doc_def .
qed

lemma month_index_bounds:
  fixes doy :: int
  assumes "0 \<le> doy" "doy \<le> 365"
  shows "0 \<le> (5 * doy + 2) div 153 \<and> (5 * doy + 2) div 153 \<le> 11"
proof -
  have "0 \<le> 5 * doy + 2" "5 * doy + 2 < 12 * 153" using assms by simp_all
  then have "0 \<le> (5 * doy + 2) div 153" "(5 * doy + 2) div 153 < 12"
    by (simp_all add: div_less_iff_less_mult)
  then show ?thesis by simp
qed

lemma date_bounds:
  fixes doy :: int
  shows "1 \<le> doy - (153 * ((5 * doy + 2) div 153) + 2) div 5 + 1
       \<and> doy - (153 * ((5 * doy + 2) div 153) + 2) div 5 + 1 \<le> 31"
proof -
  define mp where "mp = (5 * doy + 2) div 153"
  define e where "e = (153 * mp + 2) div 5"
  have m1: "153 * mp \<le> 5 * doy + 2" and m2: "5 * doy + 2 < 153 * mp + 153"
    unfolding mp_def by (simp_all add: algebra_simps)
  have e1: "5 * e \<le> 153 * mp + 2" and e2: "153 * mp + 2 < 5 * e + 5"
    unfolding e_def by (simp_all add: algebra_simps)
  from m1 m2 e1 e2 have "1 \<le> doy - e + 1 \<and> doy - e + 1 \<le> 31" by linarith
  then show ?thesis by (simp add: e_def mp_def)
qed

lemma moment_month_bounds: "1 \<le> moment_month host t \<and> moment_month host t \<le> 12"
proof -
  from year_and_day_bounds [of "localDay host t"]
  obtain y doy where yd: "year_and_day (localDay host t) = (y, doy)" "0 \<le> doy" "doy \<le> 365"
    by (cases "year_and_day (localDay host t)") simp
  from month_index_bounds [OF yd(2,3)] show ?thesis
    by (simp add: moment_month_def civil_from_days_def yd(1) Let_def)
qed

lemma moment_date_bounds: "1 \<le> moment_date host t \<and> moment_date host t \<le> 31"
proof -
  obtain y doy where yd: "year_and_day (localDay host t) = (y, doy)"
    by (cases "year_and_day (localDay host t)")
  from date_bounds [of doy] show ?thesis
    by (simp add: moment_date_def civil_from_days_def yd Let_def)
qed

lemma isDigit_digit: "n < 10 \<Longrightarrow> isDigit (digit n)"
  unfolding isDigit_def digit_def by (rule nth_mem) simp

lemma decimal_all_digits: "list_all isDigit (decimal n)"
proof (induction n rule: decimal.induct)
  case (1 n)
  show ?case
  proof (cases "n < 10")
    case True
    then show ?thesis by (subst decimal.simps) (simp add: isDigit_digit)
  next
    case False
    with "1.IH" show ?thesis by (subst decimal.simps) (simp add: isDigit_digit)
  qed
qed

lemma length_decimal: "n < 10 ^ Suc k \<Longrightarrow> length (decimal n) \<le> Suc k"
proof (induction k arbitrary: n)
  case 0
  then show ?case by (subst decimal.simps) simp
next
  case (Suc k)
  show ?case
  proof (cases "n < 10")
    case True
    then show ?thesis by (subst decimal.simps) simp
  next
    case False
    from Suc.prems have "n div 10 < 10 ^ Suc k"
      by (simp add: less_mult_imp_div_less mult.commute)
    from Suc.IH [OF this] False show ?thesis by (subst decimal.simps) simp
  qed
qed

text \<open>A number from 0 below \<open>10 ^ k\<close> is filled to exactly \<open>k\<close> digits.\<close>

lemma zeroFill_shape:
  assumes "0 \<le> number" "number < 10 ^ k" "0 < k"
  shows "length (zeroFill number k) = k \<and> list_all isDigit (zeroFill number k)"
proof -
  define ds where "ds = decimal \<bar>number\<bar>"
  define pad where "pad = nat (max 0 (int k - int (length ds)))"
  from assms(3) obtain k' where k: "k = Suc k'" by (cases k) simp_all
  from assms(1,2) have "\<bar>number\<bar> < 10 ^ Suc k'" by (simp add: k)
  from length_decimal [OF this] have "length ds \<le> k" by (simp add: ds_def k)
  then have len: "pad + length ds = k" by (simp add: pad_def)
  have zf: "zeroFill number k = replicate pad (CHR ''0'') @ ds"
    using assms(1) by (simp add: zeroFill_def Let_def ds_def pad_def)
  have "isDigit (CHR ''0'')" by (simp add: isDigit_def)
  then have "list_all isDigit (replicate pad (CHR ''0''))" by (simp add: list_all_iff)
  moreover have "list_all isDigit ds" by (simp add: ds_def decimal_all_digits)
  ultimately show ?thesis using len by (simp add: zf)
qed

lemma format_shape:
  assumes "0 \<le> moment_year host t" "moment_year host t \<le> 9999"
  shows "is_YYYY_MM_DD (format_YYYY_MM_DD host (Some t))"
proof -
  define Y where "Y = zeroFill (moment_year host t) 4"
  define M where "M = zeroFill (moment_month host t) 2"
  define D where "D = zeroFill (moment_date host t) 2"
  have "moment_year host t < 10 ^ 4" using assms(2) by simp
  from zeroFill_shape [OF assms(1) this]
  have Y: "length Y = 4" "list_all isDigit Y" by (simp_all add: Y_def)
  from moment_month_bounds [of host t]
  have "0 \<le> moment_month host t" "moment_month host t < 10 ^ 2" by simp_all
  from zeroFill_shape [OF this] have M: "length M = 2" "list_all isDigit M"
    by (simp_all add: M_def)
  from moment_date_bounds [of host t]
  have "0 \<le> moment_date host t" "moment_date host t < 10 ^ 2" by simp_all
  from zeroFill_shape [OF this] have D: "length D = 2" "list_all isDigit D"
    by (simp_all add: D_def)
  have "format_YYYY_MM_DD host (Some t) = Y @ ''-'' @ M @ ''-'' @ D"
    by (simp add: format_YYYY_MM_DD_def Y_def M_def D_def)
  moreover have "is_YYYY_MM_DD (Y @ ''-'' @ M @ ''-'' @ D)"
    using Y M D by (simp add: is_YYYY_MM_DD_def nth_append)
  ultimately show ?thesis by simp
qed

lemma years_of_store_a:
  "moment_year host_utc 1704099600000 = 2024"
  "moment_year host_utc 1704182400000 = 2024"
  "moment_year host_utc 1704189600000 = 2024"
  "moment_year host_utc 1704151800000 = 2024"
  by (simp_all add: moment_year_def civil_values)

text \<open>
  Claim C8, as stated, fails.  A completed task without a completion instant is grouped
  under the text \<^verbatim>\<open>Invalid date\<close>, and a completion in the year 10000 is printed with a
  year of five digits; either text is returned, and neither is of the form
  \<^verbatim>\<open>YYYY-MM-DD\<close>.
\<close>

theorem getDateWithMostCompletedTasks_not_date_only:
  "getDateWithMostCompletedTasks host_utc store_without_date (user_created 0)
     = Some ''Invalid date''
   \<and> \<not> is_YYYY_MM_DD ''Invalid date''
   \<and> getDateWithMostCompletedTasks host_utc store_year_10000 (user_created 0)
     = Some ''10000-01-01''
   \<and> \<not> is_YYYY_MM_DD ''10000-01-01''"
  by (simp add: result_of_store_without_date result_of_store_year_10000 date_only_values)

text \<open>
  Claim C8, amended.  When every completed task of the list has a completion instant whose
  year, in the time zone of the host, lies from 0 to 9999, a date returned by
  \<open>getDateWithMostCompletedTasks\<close> is of the form \<^verbatim>\<open>YYYY-MM-DD\<close>, and it is the formatted
  completion instant of a completed task of the list.
\<close>

theorem getDateWithMostCompletedTasks_date_only:
  assumes "getTodoListByUser db (user_id user) = Some todolist"
    and "\<forall>t \<in> set (tasks db). todoListId t = list_id todolist \<and> completionStatus t \<longrightarrow>
           (\<exists>c. completionDateTime t = Some c \<and> 0 \<le> moment_year host c \<and> moment_year host c \<le> 9999)"
    and "getDateWithMostCompletedTasks host db user = Some date"
  shows "is_YYYY_MM_DD date
       \<and> (\<exists>t c. t \<in> set (tasks db) \<and> todoListId t = list_id todolist \<and> completionStatus t
              \<and> completionDateTime t = Some c \<and> date = format_YYYY_MM_DD host (Some c))"
proof -
  define completed
    where "completed = filter (\<lambda>t. todoListId t = list_id todolist \<and> completionStatus t) (tasks db)"
  from getDateWithMostCompletedTasks_Some_list [OF assms(1), of host] assms(3)
  have "fst (findMax (None, 0) (Object_entries (tasksByDate host completed))) = Some date"
    by (simp add: completed_def)
  from findMax_Some_key [OF this]
  have "date \<in> set (first_seen (map (groupKey host) completed))"
    unfolding Object_entries_tasksByDate by (simp add: tasksByDate_grouped image_image)
  then obtain t where t: "t \<in> set completed" "date = groupKey host t"
    by (auto simp add: set_first_seen)
  from t(1) have m: "t \<in> set (tasks db)" "todoListId t = list_id todolist \<and> completionStatus t"
    by (simp_all add: completed_def)
  with assms(2) obtain c where c: "completionDateTime t = Some c"
      "0 \<le> moment_year host c" "moment_year host c \<le> 9999"
    by blast
  have d: "date = format_YYYY_MM_DD host (Some c)"
    by (simp add: t(2) groupKey_def c(1))
  from format_shape [OF c(2,3)] have "is_YYYY_MM_DD date" by (simp add: d)
  with m c(1) d show ?thesis by blast
qed

theorem getDateWithMostCompletedTasks_date_only_witness:
  "getTodoListByUser store_a (user_id (user_created 0)) = Some \<lparr>list_id = 10, userId = 1\<rparr>
   \<and> getDateWithMostCompletedTasks host_utc store_a (user_created 0) = Some ''2024-01-01''
   \<and> is_YYYY_MM_DD ''2024-01-01''"
proof -
  have l: "getTodoListByUser store_a (user_id (user_created 0))
             = Some \<lparr>list_id = 10, userId = 1\<rparr>"
    by (simp add: store_a_def list_of_user_1)
  have y: "\<forall>t \<in> set (tasks store_a).
             todoListId t = list_id \<lparr>list_id = 10, userId = 1\<rparr> \<and> completionStatus t \<longrightarrow>
             (\<exists>c. completionDateTime t = Some c \<and> 0 \<le> moment_year host_utc c
                 \<and> moment_year host_utc c \<le> 9999)"
    by (simp add: store_a_def on_time_def other_list_def at_deadline_def late_second_day_def
        overdue_pending_def late_first_day_def years_of_store_a)
  from getDateWithMostCompletedTasks_date_only [OF l y result_of_store_a] l result_of_store_a
  show ?thesis by simp
qed

end
